theory Spec2Isabelle
  imports Main "HOL-Library.AList"
begin

section \<open>Errors\<close>

text \<open>
  Every \<^verbatim>\<open>throw\<close> and every rejected promise of the TypeScript is a value of
  \<open>error\<close>. \<open>Error msg\<close> is \<^verbatim>\<open>new Error(msg)\<close>; \<open>TypeError\<close> and \<open>SyntaxError\<close>
  are the built-in exceptions of property access on \<^verbatim>\<open>null\<close>/\<^verbatim>\<open>undefined\<close> and
  of \<^verbatim>\<open>response.json()\<close>; the remaining constructors are the errors the
  relational engine raises for the statements of \<^verbatim>\<open>storage/queries\<close>.
\<close>

datatype error =
    Error string
  | TypeError
  | SyntaxError
  | UndefinedTable
  | UniqueViolation
  | ForeignKeyViolation
  | CardinalityViolation
  | NumericValueOutOfRange

section \<open>Data model (\<^verbatim>\<open>models/storage/dto\<close> and the tables of \<^verbatim>\<open>storage/queries\<close>)\<close>

text \<open>
  Identifiers are opaque keys compared by equality (strings, as \<^verbatim>\<open>api/database.ts\<close>
  types them). Timestamps are epoch milliseconds; the conversion to and from the
  engine's timestamp type is taken to be the identity on them. A \<open>chat\<close> is both the
  DTO and the row of table \<^verbatim>\<open>chats\<close> (column \<^verbatim>\<open>created_at\<close>, which no modelled
  statement reads, is left out).
\<close>

record chat =
  chatId :: string
  userId :: string
  title :: string
  updatedAt :: int
  deletedAt :: "int option"

record message =
  messageId :: string
  msgChatId :: string
  content :: string
  role :: string
  createdAt :: int
  imageUrl :: "string option"
  prompt :: "string option"

text \<open>
  The persistent store. A table that has not been created yet is \<open>None\<close>. Field
  \<open>other\<close> stands for every schema object that caller-registered upgrade procedures
  create or change outside the three tables of the SDK.
\<close>

record 'x db =
  schema_versions :: "int list option"
  chats :: "chat list option"
  messages :: "message list option"
  other :: 'x

text \<open>JavaScript truthiness of an optional number, and \<^verbatim>\<open>x || null\<close>.\<close>

fun truthy :: "int option \<Rightarrow> bool" where
  "truthy None = False"
| "truthy (Some n) = (n \<noteq> 0)"

fun or_null :: "int option \<Rightarrow> int option" where
  "or_null None = None"
| "or_null (Some n) = (if n = 0 then None else Some n)"

fun str_or_null :: "string option \<Rightarrow> string option" where
  "str_or_null None = None"
| "str_or_null (Some s) = (if s = [] then None else Some s)"

section \<open>Statements and transactions\<close>

text \<open>
  A single SQL statement either fails without effect or yields the next state. Code
  that runs between \<^verbatim>\<open>BEGIN\<close> and \<^verbatim>\<open>COMMIT\<close> works on a private copy of the
  store; when it throws, it hands back the error together with the copy as far as it
  got (the partial effects). \<open>ROLLBACK\<close> discards that copy, \<open>COMMIT\<close> installs it.
  A procedure is taken not to issue transaction control statements itself.
\<close>

type_synonym 'x statement = "'x db \<Rightarrow> error + 'x db"

type_synonym 'x txn = "'x db \<Rightarrow> (error \<times> 'x db) + 'x db"

definition stmt :: "'x statement \<Rightarrow> 'x txn" where
  "stmt q t = (case q t of Inl e \<Rightarrow> Inl (e, t) | Inr t' \<Rightarrow> Inr t')"

definition then_do :: "(error \<times> 'x db) + 'x db \<Rightarrow> 'x txn \<Rightarrow> (error \<times> 'x db) + 'x db" where
  "then_do r f = (case r of Inl failure \<Rightarrow> Inl failure | Inr t \<Rightarrow> f t)"

definition ROLLBACK :: "'x db \<Rightarrow> 'x db \<Rightarrow> 'x db" where
  "ROLLBACK before working = before"

definition COMMIT :: "'x db \<Rightarrow> 'x db \<Rightarrow> 'x db" where
  "COMMIT before working = working"

text \<open>\<^verbatim>\<open>PostgresClient.query\<close>: one statement on a pooled connection, committed by itself.\<close>

definition query :: "'x statement \<Rightarrow> 'x db \<Rightarrow> error option \<times> 'x db" where
  "query q d = (case q d of Inl e \<Rightarrow> (Some e, d) | Inr d' \<Rightarrow> (None, d'))"

section \<open>The statements of \<^verbatim>\<open>storage/queries\<close>\<close>

definition CREATE_VERSION_TABLE_QUERY :: "'x statement" where
  "CREATE_VERSION_TABLE_QUERY d =
     Inr (case schema_versions d of None \<Rightarrow> d\<lparr>schema_versions := Some []\<rparr> | Some vs \<Rightarrow> d)"

definition GET_SCHEMA_VERSION_QUERY :: "'x db \<Rightarrow> error + int" where
  "GET_SCHEMA_VERSION_QUERY d =
     (case schema_versions d of
        None \<Rightarrow> Inl UndefinedTable
      | Some vs \<Rightarrow> Inr (if vs = [] then 0 else Max (set vs)))"

text \<open>
  \<^verbatim>\<open>UPDATE_SCHEMA_VERSION_QUERY\<close>: an \<^verbatim>\<open>INSERT\<close> into a column of type
  \<^verbatim>\<open>INTEGER\<close> (32 bits, signed) that is the primary key.
\<close>

definition UPDATE_SCHEMA_VERSION_QUERY :: "int \<Rightarrow> 'x statement" where
  "UPDATE_SCHEMA_VERSION_QUERY v d =
     (case schema_versions d of
        None \<Rightarrow> Inl UndefinedTable
      | Some vs \<Rightarrow>
          if v < - 2147483648 \<or> 2147483647 < v then Inl NumericValueOutOfRange
          else if v \<in> set vs then Inl UniqueViolation
          else Inr (d\<lparr>schema_versions := Some (vs @ [v])\<rparr>))"

definition CREATE_CHATS_TABLE_QUERY :: "'x statement" where
  "CREATE_CHATS_TABLE_QUERY d =
     Inr (case chats d of None \<Rightarrow> d\<lparr>chats := Some []\<rparr> | Some rows \<Rightarrow> d)"

definition CREATE_MESSAGES_TABLE_QUERY :: "'x statement" where
  "CREATE_MESSAGES_TABLE_QUERY d =
     (case messages d of
        Some rows \<Rightarrow> Inr d
      | None \<Rightarrow>
          (case chats d of
             None \<Rightarrow> Inl UndefinedTable
           | Some cs \<Rightarrow> Inr (d\<lparr>messages := Some []\<rparr>)))"

text \<open>Indexes change no result of a modelled statement; creating one needs its table.\<close>

definition INDEX_CHATS :: "'x statement" where
  "INDEX_CHATS d = (case chats d of None \<Rightarrow> Inl UndefinedTable | Some rows \<Rightarrow> Inr d)"

definition INDEX_MESSAGES :: "'x statement" where
  "INDEX_MESSAGES d = (case messages d of None \<Rightarrow> Inl UndefinedTable | Some rows \<Rightarrow> Inr d)"

text \<open>
  \<^verbatim>\<open>GET_CHATS_BY_USER_ID_QUERY\<close>: the user's rows newer than the watermark (when one is
  given), newest first, then \<^verbatim>\<open>LIMIT $3 OFFSET $4\<close>. Rows with equal
  \<^verbatim>\<open>updated_at\<close> come in an order SQL leaves open; the model fixes one.
\<close>

definition GET_CHATS_BY_USER_ID_QUERY ::
  "string \<Rightarrow> int option \<Rightarrow> nat \<Rightarrow> nat \<Rightarrow> 'x db \<Rightarrow> error + chat list" where
  "GET_CHATS_BY_USER_ID_QUERY uid watermark limit offset d =
     (case chats d of
        None \<Rightarrow> Inl UndefinedTable
      | Some rows \<Rightarrow>
          Inr (take limit (drop offset (rev (sort_key updatedAt
                (filter (\<lambda>c. userId c = uid \<and>
                    (case watermark of None \<Rightarrow> True | Some w \<Rightarrow> w < updatedAt c)) rows))))))"

text \<open>
  \<^verbatim>\<open>UPSERT_CHATS_QUERY\<close>: \<^verbatim>\<open>INSERT ... ON CONFLICT (id) DO UPDATE\<close>. The engine
  refuses a statement that proposes the same id twice.
\<close>

definition upsert_chat :: "chat \<Rightarrow> chat list \<Rightarrow> chat list" where
  "upsert_chat c rows =
     (if chatId c \<in> chatId ` set rows
      then map (\<lambda>r. if chatId r = chatId c then c else r) rows
      else rows @ [c])"

definition UPSERT_CHATS_QUERY :: "chat list \<Rightarrow> 'x statement" where
  "UPSERT_CHATS_QUERY cs d =
     (case chats d of
        None \<Rightarrow> Inl UndefinedTable
      | Some rows \<Rightarrow>
          if \<not> distinct (map chatId cs) then Inl CardinalityViolation
          else Inr (d\<lparr>chats := Some (fold upsert_chat cs rows)\<rparr>))"

definition DELETE_MESSAGES_BY_CHAT_IDS :: "string list \<Rightarrow> 'x statement" where
  "DELETE_MESSAGES_BY_CHAT_IDS ids d =
     (case messages d of
        None \<Rightarrow> Inl UndefinedTable
      | Some ms \<Rightarrow> Inr (d\<lparr>messages := Some (filter (\<lambda>m. msgChatId m \<notin> set ids) ms)\<rparr>))"

definition chat_exists :: "string \<Rightarrow> 'x db \<Rightarrow> bool" where
  "chat_exists cid d = (case chats d of None \<Rightarrow> False | Some rows \<Rightarrow> cid \<in> chatId ` set rows)"

text \<open>\<^verbatim>\<open>ADD_MESSAGE_QUERY\<close>: a plain \<^verbatim>\<open>INSERT\<close> (primary key, then foreign key).\<close>

definition ADD_MESSAGE_QUERY :: "message \<Rightarrow> 'x statement" where
  "ADD_MESSAGE_QUERY m d =
     (case messages d of
        None \<Rightarrow> Inl UndefinedTable
      | Some ms \<Rightarrow>
          if messageId m \<in> messageId ` set ms then Inl UniqueViolation
          else if \<not> chat_exists (msgChatId m) d then Inl ForeignKeyViolation
          else Inr (d\<lparr>messages := Some (ms @ [m])\<rparr>))"

text \<open>
  \<^verbatim>\<open>ADD_MESSAGES_QUERY\<close>: \<^verbatim>\<open>INSERT ... ON CONFLICT (id) DO NOTHING\<close>. A proposed row
  whose id is already there (or was inserted earlier by the same statement) is
  skipped; the foreign key is checked on the rows the statement did insert, which are
  the ones it appended.
\<close>

definition insert_do_nothing :: "message \<Rightarrow> message list \<Rightarrow> message list" where
  "insert_do_nothing m rows =
     (if messageId m \<in> messageId ` set rows then rows else rows @ [m])"

definition ADD_MESSAGES_QUERY :: "message list \<Rightarrow> 'x statement" where
  "ADD_MESSAGES_QUERY ms d =
     (case messages d of
        None \<Rightarrow> Inl UndefinedTable
      | Some rows \<Rightarrow>
          (let rows' = fold insert_do_nothing ms rows in
           if list_ex (\<lambda>m. \<not> chat_exists (msgChatId m) d) (drop (length rows) rows')
           then Inl ForeignKeyViolation
           else Inr (d\<lparr>messages := Some rows'\<rparr>)))"

section \<open>\<^verbatim>\<open>PostgresClient\<close>: the migration runner\<close>

text \<open>
  An upgrade procedure runs on the transaction's connection. The registry is the
  \<^verbatim>\<open>Map<number, procedure>\<close> of the client, in insertion order; \<^verbatim>\<open>Map.set\<close>
  overwrites an existing key in place. In the client a version is a number that the
  loop counts up; the store records it in a 32-bit column.
\<close>

type_synonym 'x migration = "'x txn"

type_synonym 'x migrations = "(int \<times> 'x migration) list"

definition registerMigration :: "int \<Rightarrow> 'x migration \<Rightarrow> 'x migrations \<Rightarrow> 'x migrations" where
  "registerMigration fromVersion migrationFn ms = AList.update fromVersion migrationFn ms"

text \<open>The default procedure the constructor registers for version 0.\<close>

definition baseline :: "'x migration" where
  "baseline t =
     then_do (stmt CREATE_CHATS_TABLE_QUERY t) (\<lambda>t1.
     then_do (stmt CREATE_MESSAGES_TABLE_QUERY t1) (\<lambda>t2.
     then_do (stmt INDEX_CHATS t2) (stmt INDEX_MESSAGES)))"

definition PostgresClient_new :: "'x migrations" where
  "PostgresClient_new = registerMigration 0 baseline []"

text \<open>
  One turn of the loop of \<^verbatim>\<open>initializeDatabase\<close>: run the procedure, then record
  \<^verbatim>\<open>currentVersion + 1\<close>.
\<close>

definition upgrade :: "'x migration \<Rightarrow> int \<Rightarrow> 'x txn" where
  "upgrade migration currentVersion t =
     then_do (migration t) (stmt (UPDATE_SCHEMA_VERSION_QUERY (currentVersion + 1)))"

text \<open>
  The \<^verbatim>\<open>while (this.migrations.has(currentVersion))\<close> loop. The last argument
  collects the versions the loop announces on the console before it upgrades from
  them. The loop ends because the registry is finite.
\<close>

function migrate ::
  "'x migrations \<Rightarrow> int \<Rightarrow> 'x db \<Rightarrow> int list \<Rightarrow> ((error \<times> 'x db) + (int \<times> 'x db)) \<times> int list" where
  "migrate ms currentVersion t announced =
     (case map_of ms currentVersion of
        None \<Rightarrow> (Inr (currentVersion, t), announced)
      | Some migration \<Rightarrow>
          (case upgrade migration currentVersion t of
             Inl failure \<Rightarrow> (Inl failure, announced @ [currentVersion])
           | Inr t' \<Rightarrow> migrate ms (currentVersion + 1) t' (announced @ [currentVersion])))"
  by pat_completeness auto
termination
proof (relation "measure (\<lambda>(ms, v, t, announced). length (filter (\<lambda>p. v \<le> fst p) ms))")
  show "wf (measure (\<lambda>(ms, v, t, announced). length (filter (\<lambda>p. v \<le> fst p) ms)))"
    by simp
next
  fix ms :: "'x migrations" and currentVersion :: int and t :: "'x db"
    and announced :: "int list" and migration :: "'x migration" and t' :: "'x db"
  assume reg: "map_of ms currentVersion = Some migration"
  have mem: "(currentVersion, migration) \<in> set ms"
    using reg by (rule map_of_SomeD)
  have less: "\<And>xs :: 'x migrations. (currentVersion, migration) \<in> set xs \<Longrightarrow>
      length (filter (\<lambda>p. currentVersion + 1 \<le> fst p) xs)
        < length (filter (\<lambda>p. currentVersion \<le> fst p) xs)"
  proof -
    fix xs :: "'x migrations"
    have le: "\<And>ys :: 'x migrations. length (filter (\<lambda>p. currentVersion + 1 \<le> fst p) ys)
        \<le> length (filter (\<lambda>p. currentVersion \<le> fst p) ys)"
    proof -
      fix ys :: "'x migrations"
      show "length (filter (\<lambda>p. currentVersion + 1 \<le> fst p) ys)
        \<le> length (filter (\<lambda>p. currentVersion \<le> fst p) ys)"
        by (induction ys) auto
    qed
    assume "(currentVersion, migration) \<in> set xs"
    then show "length (filter (\<lambda>p. currentVersion + 1 \<le> fst p) xs)
        < length (filter (\<lambda>p. currentVersion \<le> fst p) xs)"
    proof (induction xs)
      case Nil
      then show ?case by simp
    next
      case (Cons x xs)
      show ?case
      proof (cases "x = (currentVersion, migration)")
        case True
        then show ?thesis using le [of xs] by simp
      next
        case False
        then have "(currentVersion, migration) \<in> set xs" using Cons.prems by simp
        then show ?thesis using Cons.IH by simp
      qed
    qed
  qed
  show "((ms, currentVersion + 1, t', announced @ [currentVersion]),
         (ms, currentVersion, t, announced))
        \<in> measure (\<lambda>(ms, v, t, announced). length (filter (\<lambda>p. v \<le> fst p) ms))"
    using less [OF mem] by simp
qed

declare migrate.simps [simp del]

text \<open>
  \<^verbatim>\<open>PostgresClient.initializeDatabase\<close>. The result is the error thrown (if any),
  the store afterwards, and the versions announced on the console.
\<close>

definition PostgresClient_initializeDatabase ::
  "'x migrations \<Rightarrow> 'x db \<Rightarrow> (error option \<times> 'x db) \<times> int list" where
  "PostgresClient_initializeDatabase ms d =
     (case stmt CREATE_VERSION_TABLE_QUERY d of
        Inl (e, t) \<Rightarrow> ((Some e, ROLLBACK d t), [])
      | Inr t0 \<Rightarrow>
          (case GET_SCHEMA_VERSION_QUERY t0 of
             Inl e \<Rightarrow> ((Some e, ROLLBACK d t0), [])
           | Inr currentVersion \<Rightarrow>
               (case migrate ms currentVersion t0 [] of
                  (Inl (e, t), announced) \<Rightarrow> ((Some e, ROLLBACK d t), announced)
                | (Inr (v, t), announced) \<Rightarrow> ((None, COMMIT d t), announced))))"

section \<open>\<^verbatim>\<open>PostgresClient\<close>: chats and messages\<close>

text \<open>\<^verbatim>\<open>getChatsByUserId(userId, updatedAfter?, limit = 20, page = 0)\<close>.\<close>

definition PostgresClient_getChatsByUserId ::
  "string \<Rightarrow> int option \<Rightarrow> nat \<Rightarrow> nat \<Rightarrow> 'x db \<Rightarrow> error + chat list" where
  "PostgresClient_getChatsByUserId uid updatedAfter limit page d =
     (let offset = page * limit in
      GET_CHATS_BY_USER_ID_QUERY uid (or_null updatedAfter) limit offset d)"

text \<open>\<^verbatim>\<open>PostgresClient.syncChats(chatsToSync, chatsToDelete)\<close>.\<close>

definition PostgresClient_syncChats ::
  "chat list \<Rightarrow> string list \<Rightarrow> 'x db \<Rightarrow> error option \<times> 'x db" where
  "PostgresClient_syncChats toSync toDelete d =
     (if toSync = [] \<and> toDelete = [] then (None, d)
      else
        (case then_do
                (if toSync \<noteq> []
                 then stmt (UPSERT_CHATS_QUERY
                        (map (\<lambda>c. c\<lparr>deletedAt := or_null (deletedAt c)\<rparr>) toSync)) d
                 else Inr d)
                (\<lambda>t. if toDelete \<noteq> [] then stmt (DELETE_MESSAGES_BY_CHAT_IDS toDelete) t
                     else Inr t) of
           Inl (e, t) \<Rightarrow> (Some e, ROLLBACK d t)
         | Inr t \<Rightarrow> (None, COMMIT d t)))"

definition PostgresClient_addMessage ::
  "string \<Rightarrow> string \<Rightarrow> string \<Rightarrow> string \<Rightarrow> int \<Rightarrow> string option \<Rightarrow> string option \<Rightarrow>
   'x db \<Rightarrow> error option \<times> 'x db" where
  "PostgresClient_addMessage mid cid ctnt rl created img prm d =
     query (ADD_MESSAGE_QUERY
       \<lparr>messageId = mid, msgChatId = cid, content = ctnt, role = rl, createdAt = created,
        imageUrl = str_or_null img, prompt = str_or_null prm\<rparr>) d"

definition PostgresClient_addMessages :: "message list \<Rightarrow> 'x db \<Rightarrow> error option \<times> 'x db" where
  "PostgresClient_addMessages ms d =
     (if ms = [] then (None, d)
      else query (ADD_MESSAGES_QUERY
             (map (\<lambda>m. m\<lparr>imageUrl := str_or_null (imageUrl m),
                          prompt := str_or_null (prompt m)\<rparr>) ms)) d)"

section \<open>\<^verbatim>\<open>api/database.ts\<close>\<close>

text \<open>
  The module variable \<^verbatim>\<open>databaseClient\<close> is \<open>None\<close> until \<^verbatim>\<open>initializeDatabase\<close>
  has stored a client in it; a client is known by the procedures registered with it.
\<close>

definition not_initialized :: error where
  "not_initialized = Error ''Database client not initialized. Call initializeDatabase first.''"

definition initializeDatabase ::
  "'x migrations option \<Rightarrow> 'x db \<Rightarrow> 'x migrations option \<times> (error option \<times> 'x db) \<times> int list" where
  "initializeDatabase registerMigrations d =
     (let client = fold (\<lambda>(version, migration). registerMigration version migration)
                     (case registerMigrations of None \<Rightarrow> [] | Some reg \<Rightarrow> reg)
                     PostgresClient_new
      in (Some client, PostgresClient_initializeDatabase client d))"

text \<open>The three lists the body of \<^verbatim>\<open>syncChats\<close> fills.\<close>

record sync_sets =
  chatsToSync :: "chat list"
  chatsToDelete :: "string list"
  console_error :: "string list"

text \<open>\<^verbatim>\<open>new Map(dbChats.map(chat => [chat.chatId, chat]))\<close>: a later entry wins.\<close>

definition dbChatsMap :: "chat list \<Rightarrow> (string \<rightharpoonup> chat)" where
  "dbChatsMap dbChats = map_of (rev (map (\<lambda>c. (chatId c, c)) dbChats))"

definition ownership_error :: "chat \<Rightarrow> string \<Rightarrow> string" where
  "ownership_error c uid =
     ''Chat '' @ chatId c @ '' has userId '' @ userId c @
     '' which doesn't match the provided userId '' @ uid"

text \<open>The callback of \<^verbatim>\<open>chats.forEach\<close>.\<close>

definition sync_chat :: "string \<Rightarrow> (string \<rightharpoonup> chat) \<Rightarrow> chat \<Rightarrow> sync_sets \<Rightarrow> sync_sets" where
  "sync_chat uid m c acc =
     (if userId c \<noteq> uid then
        acc\<lparr>console_error := console_error acc @ [ownership_error c uid]\<rparr>
      else
        (case m (chatId c) of
           Some dbChat \<Rightarrow>
             (if \<not> truthy (deletedAt dbChat) then
                (if truthy (deletedAt c) then
                   acc\<lparr>chatsToSync := chatsToSync acc @ [c],
                       chatsToDelete := chatsToDelete acc @ [chatId c]\<rparr>
                 else if updatedAt c > updatedAt dbChat then
                   acc\<lparr>chatsToSync := chatsToSync acc @ [c]\<rparr>
                 else acc)
              else acc)
         | None \<Rightarrow>
             (if truthy (deletedAt c) then
                acc\<lparr>chatsToSync := chatsToSync acc @ [c],
                    chatsToDelete := chatsToDelete acc @ [chatId c]\<rparr>
              else acc\<lparr>chatsToSync := chatsToSync acc @ [c]\<rparr>)))"

definition reconcile :: "string \<Rightarrow> chat list \<Rightarrow> chat list \<Rightarrow> sync_sets" where
  "reconcile uid dbChats cs =
     fold (sync_chat uid (dbChatsMap dbChats)) cs
       \<lparr>chatsToSync = [], chatsToDelete = [], console_error = []\<rparr>"

text \<open>
  \<^verbatim>\<open>syncChats(userId, chats, updatedAt?)\<close>: the error thrown (if any), the store
  afterwards, and the lines written with \<^verbatim>\<open>console.error\<close>. The snapshot is read
  with the client's default page: \<^verbatim>\<open>limit = 20\<close>, \<^verbatim>\<open>page = 0\<close>.
\<close>

definition syncChats ::
  "'x migrations option \<Rightarrow> string \<Rightarrow> chat list \<Rightarrow> int option \<Rightarrow> 'x db \<Rightarrow>
   (error option \<times> 'x db) \<times> string list" where
  "syncChats databaseClient uid cs updatedAfter d =
     (case databaseClient of
        None \<Rightarrow> ((Some not_initialized, d), [])
      | Some client \<Rightarrow>
          if cs = [] then ((None, d), [])
          else
            (case PostgresClient_getChatsByUserId uid updatedAfter 20 0 d of
               Inl e \<Rightarrow> ((Some e, d), [])
             | Inr dbChats \<Rightarrow>
                 (let r = reconcile uid dbChats cs in
                  (PostgresClient_syncChats (chatsToSync r) (chatsToDelete r) d,
                   console_error r))))"

definition addMessage ::
  "'x migrations option \<Rightarrow> string \<Rightarrow> string \<Rightarrow> string \<Rightarrow> string \<Rightarrow> int \<Rightarrow>
   string option \<Rightarrow> string option \<Rightarrow> 'x db \<Rightarrow> error option \<times> 'x db" where
  "addMessage databaseClient mid cid ctnt rl created img prm d =
     (case databaseClient of
        None \<Rightarrow> (Some not_initialized, d)
      | Some client \<Rightarrow> PostgresClient_addMessage mid cid ctnt rl created img prm d)"

definition addMessages ::
  "'x migrations option \<Rightarrow> message list \<Rightarrow> 'x db \<Rightarrow> error option \<times> 'x db" where
  "addMessages databaseClient ms d =
     (case databaseClient of
        None \<Rightarrow> (Some not_initialized, d)
      | Some client \<Rightarrow> PostgresClient_addMessages ms d)"

section \<open>\<^verbatim>\<open>api/llm.ts\<close>\<close>

text \<open>
  A value read with \<^verbatim>\<open>response.json()\<close>. An object keeps its members in source order;
  of a repeated key the last member counts. Numbers are the integers.
\<close>

datatype json =
    JNull
  | JBool bool
  | JNum int
  | JStr string
  | JArr "json list"
  | JObj "(string \<times> json) list"

text \<open>
  \<^verbatim>\<open>v.error\<close> and \<^verbatim>\<open>v.message\<close>, where \<open>None\<close> is \<^verbatim>\<open>undefined\<close>: reading a property
  of \<^verbatim>\<open>undefined\<close> or \<^verbatim>\<open>null\<close> throws; a boolean, a number, a string or an array has
  neither property.
\<close>

fun property :: "json option \<Rightarrow> string \<Rightarrow> error + json option" where
  "property None key = Inl TypeError"
| "property (Some JNull) key = Inl TypeError"
| "property (Some (JObj members)) key = Inr (map_of (rev members) key)"
| "property (Some v) key = Inr None"

text \<open>
  A value inside a template literal. What JavaScript prints for a value that is not a
  string is left to the parameter \<open>toStr\<close>.
\<close>

fun template :: "(json \<Rightarrow> string) \<Rightarrow> json option \<Rightarrow> string" where
  "template toStr None = ''undefined''"
| "template toStr (Some (JStr s)) = s"
| "template toStr (Some v) = toStr v"

text \<open>
  What \<^verbatim>\<open>fetch\<close> is called with and what it resolves to. The body of a response is the
  sequence of chunks the transport delivers, or \<open>None\<close> when the response has no body.
  \<open>payload\<close> is the request object with the \<^verbatim>\<open>stream\<close> flag the call adds to it, if any.
\<close>

record 'q request =
  url :: string
  httpMethod :: string
  authorization :: string
  payload :: "('q \<times> bool option) option"

record 'b response =
  status :: nat
  body :: "'b list option"

definition ok :: "'b response \<Rightarrow> bool" where
  "ok r = (200 \<le> status r \<and> status r \<le> 299)"

text \<open>\<^verbatim>\<open>response.json()\<close>, with the JSON reader of the platform as parameter \<open>parse\<close>.\<close>

definition response_json :: "('b list \<Rightarrow> json option) \<Rightarrow> 'b response \<Rightarrow> error + json" where
  "response_json parse r =
     (case body r of
        None \<Rightarrow> Inl SyntaxError
      | Some chunks \<Rightarrow> (case parse chunks of None \<Rightarrow> Inl SyntaxError | Some j \<Rightarrow> Inr j))"

text \<open>
  The branch \<^verbatim>\<open>if (!response.ok)\<close> that \<^verbatim>\<open>getModels\<close>, \<^verbatim>\<open>getCompletion\<close> and
  \<^verbatim>\<open>generateImage\<close> share, and the return after it.
\<close>

definition read_response ::
  "('b list \<Rightarrow> json option) \<Rightarrow> (json \<Rightarrow> string) \<Rightarrow> 'b response \<Rightarrow> error + json" where
  "read_response parse toStr response =
     (if \<not> ok response then
        (case response_json parse response of
           Inl e \<Rightarrow> Inl e
         | Inr errJson \<Rightarrow>
             (case property (Some errJson) ''error'' of
                Inl e \<Rightarrow> Inl e
              | Inr err \<Rightarrow>
                  (case property err ''message'' of
                     Inl e \<Rightarrow> Inl e
                   | Inr msg \<Rightarrow> Inl (Error (''HTTP error! status: '' @ template toStr msg)))))
      else response_json parse response)"

definition getModels ::
  "('q request \<Rightarrow> error + 'b response) \<Rightarrow> ('b list \<Rightarrow> json option) \<Rightarrow> (json \<Rightarrow> string) \<Rightarrow>
   string \<Rightarrow> string \<Rightarrow> error + json" where
  "getModels fetch parse toStr baseUrl apiKey =
     (case fetch \<lparr>url = baseUrl @ ''/v1/models'', httpMethod = ''GET'',
                  authorization = ''Bearer '' @ apiKey, payload = None\<rparr> of
        Inl e \<Rightarrow> Inl e
      | Inr response \<Rightarrow> read_response parse toStr response)"

definition getCompletion ::
  "('q request \<Rightarrow> error + 'b response) \<Rightarrow> ('b list \<Rightarrow> json option) \<Rightarrow> (json \<Rightarrow> string) \<Rightarrow>
   string \<Rightarrow> string \<Rightarrow> 'q \<Rightarrow> error + json" where
  "getCompletion fetch parse toStr baseUrl apiKey req =
     (case fetch \<lparr>url = baseUrl @ ''/v1/chat/completions'', httpMethod = ''POST'',
                  authorization = ''Bearer '' @ apiKey, payload = Some (req, Some False)\<rparr> of
        Inl e \<Rightarrow> Inl e
      | Inr response \<Rightarrow> read_response parse toStr response)"

definition generateImage ::
  "('q request \<Rightarrow> error + 'b response) \<Rightarrow> ('b list \<Rightarrow> json option) \<Rightarrow> (json \<Rightarrow> string) \<Rightarrow>
   string \<Rightarrow> string \<Rightarrow> 'q \<Rightarrow> error + json" where
  "generateImage fetch parse toStr baseUrl apiKey req =
     (case fetch \<lparr>url = baseUrl @ ''/v1/images/generations'', httpMethod = ''POST'',
                  authorization = ''Bearer '' @ apiKey, payload = Some (req, None)\<rparr> of
        Inl e \<Rightarrow> Inl e
      | Inr response \<Rightarrow> read_response parse toStr response)"

text \<open>
  The \<^verbatim>\<open>while (true)\<close> loop of \<^verbatim>\<open>streamCompletion\<close>: one decoded chunk is yielded for
  each chunk read, until the reader reports \<^verbatim>\<open>done\<close>.
\<close>

fun read_chunks :: "('b \<Rightarrow> string) \<Rightarrow> 'b list \<Rightarrow> string list" where
  "read_chunks decode [] = []"
| "read_chunks decode (v # rest) = decode v # read_chunks decode rest"

text \<open>\<^verbatim>\<open>streamCompletion\<close>: the chunks the generator yields, or the error it throws.\<close>

definition streamCompletion ::
  "('q request \<Rightarrow> error + 'b response) \<Rightarrow> ('b \<Rightarrow> string) \<Rightarrow>
   string \<Rightarrow> string \<Rightarrow> 'q \<Rightarrow> error + string list" where
  "streamCompletion fetch decode baseUrl apiKey req =
     (case fetch \<lparr>url = baseUrl @ ''/v1/chat/completions'', httpMethod = ''POST'',
                  authorization = ''Bearer '' @ apiKey, payload = Some (req, Some True)\<rparr> of
        Inl e \<Rightarrow> Inl e
      | Inr res \<Rightarrow>
          (case body res of
             None \<Rightarrow> Inl (Error ''No streamable response'')
           | Some chunks \<Rightarrow> Inr (read_chunks decode chunks)))"

section \<open>Notions the claims speak of\<close>

text \<open>
  The state of a run after \<open>k\<close> turns of the loop that all succeeded, if the run gets
  that far: the version to upgrade from next, and the working copy.
\<close>

fun after_upgrades :: "'x migrations \<Rightarrow> nat \<Rightarrow> int \<Rightarrow> 'x db \<Rightarrow> (int \<times> 'x db) option" where
  "after_upgrades ms 0 v t = Some (v, t)"
| "after_upgrades ms (Suc k) v t =
     (case map_of ms v of
        None \<Rightarrow> None
      | Some migration \<Rightarrow>
          (case upgrade migration v t of
             Inl failure \<Rightarrow> None
           | Inr t' \<Rightarrow> after_upgrades ms k (v + 1) t'))"




section \<open>Example records\<close>

definition ex_server_c1 :: chat where
  "ex_server_c1 = \<lparr>chatId = ''c1'', userId = ''u1'', title = ''trip'', updatedAt = 50, deletedAt = None\<rparr>"

definition ex_foreign_c1 :: chat where
  "ex_foreign_c1 = \<lparr>chatId = ''c1'', userId = ''u2'', title = ''trip'', updatedAt = 100, deletedAt = None\<rparr>"

definition ex_newer_c1 :: chat where
  "ex_newer_c1 = \<lparr>chatId = ''c1'', userId = ''u1'', title = ''trip to Rome'', updatedAt = 100, deletedAt = None\<rparr>"

definition ex_tomb_c2 :: chat where
  "ex_tomb_c2 = \<lparr>chatId = ''c2'', userId = ''u1'', title = ''old'', updatedAt = 70, deletedAt = Some 70\<rparr>"

definition ex_live_c2 :: chat where
  "ex_live_c2 = \<lparr>chatId = ''c2'', userId = ''u1'', title = ''old'', updatedAt = 60, deletedAt = None\<rparr>"

definition ex_m1 :: message where
  "ex_m1 = \<lparr>messageId = ''m1'', msgChatId = ''c1'', content = ''hello'', role = ''user'',
            createdAt = 51, imageUrl = None, prompt = None\<rparr>"

definition ex_m2 :: message where
  "ex_m2 = \<lparr>messageId = ''m2'', msgChatId = ''c2'', content = ''bye'', role = ''user'',
            createdAt = 61, imageUrl = None, prompt = None\<rparr>"

definition ex_store :: "unit db" where
  "ex_store = \<lparr>schema_versions = Some [1], chats = Some [ex_server_c1, ex_live_c2],
               messages = Some [ex_m1, ex_m2], other = ()\<rparr>"

definition ex_deleted_c3 :: chat where
  "ex_deleted_c3 = \<lparr>chatId = ''c3'', userId = ''u1'', title = ''gone'', updatedAt = 50, deletedAt = Some 50\<rparr>"

definition ex_revive_c3 :: chat where
  "ex_revive_c3 = \<lparr>chatId = ''c3'', userId = ''u1'', title = ''back'', updatedAt = 70, deletedAt = None\<rparr>"

definition ex_tomb_store :: "unit db" where
  "ex_tomb_store = \<lparr>schema_versions = Some [1], chats = Some [ex_deleted_c3],
                    messages = Some [], other = ()\<rparr>"

definition ex_zero_c4 :: chat where
  "ex_zero_c4 = \<lparr>chatId = ''c4'', userId = ''u1'', title = ''zero'', updatedAt = 10, deletedAt = Some 0\<rparr>"

definition ex_client_c4 :: chat where
  "ex_client_c4 = \<lparr>chatId = ''c4'', userId = ''u1'', title = ''zero again'', updatedAt = 20, deletedAt = None\<rparr>"

definition ex_fresh :: "nat db" where
  "ex_fresh = \<lparr>schema_versions = None, chats = None, messages = None, other = 0\<rparr>"


definition ex_failing :: "nat migration" where
  "ex_failing t = Inl (Error ''boom'', t\<lparr>other := 99\<rparr>)"


definition ex_bad_migrations :: "nat migrations" where
  "ex_bad_migrations = registerMigration 1 ex_failing PostgresClient_new"

definition ex_chat :: "nat \<Rightarrow> chat" where
  "ex_chat n = \<lparr>chatId = replicate n (CHR ''c''), userId = ''u1'', title = ''t'',
                updatedAt = int n, deletedAt = (if n = 1 then Some 1 else None)\<rparr>"

definition ex_store21 :: "unit db" where
  "ex_store21 = \<lparr>schema_versions = Some [1], chats = Some (map ex_chat [1..<22]),
                 messages = Some [], other = ()\<rparr>"

definition ex_stale_chat :: chat where
  "ex_stale_chat = \<lparr>chatId = ''c'', userId = ''u1'', title = ''t'', updatedAt = 0, deletedAt = None\<rparr>"

text \<open>
  A provider that answers every request with 401 and the body
  \<^verbatim>\<open>{?error?:{?message?:?bad key?}}\<close>, where \<^verbatim>\<open>?\<close> stands for the double quote, sent
  in two chunks. The reader knows this one text; the decoder takes a chunk as it is.
\<close>

definition dq :: string where
  "dq = [CHR 0x22]"

definition ex_bad_key_chunks :: "string list" where
  "ex_bad_key_chunks =
     [''{'' @ dq @ ''error'' @ dq @ '':{'',
      dq @ ''message'' @ dq @ '':'' @ dq @ ''bad key'' @ dq @ ''}}'']"

definition ex_bad_key_body :: json where
  "ex_bad_key_body = JObj [(''error'', JObj [(''message'', JStr ''bad key'')])]"

definition ex_unauthorized :: "unit request \<Rightarrow> error + string response" where
  "ex_unauthorized rq = Inr \<lparr>status = 401, body = Some ex_bad_key_chunks\<rparr>"

definition ex_parse :: "string list \<Rightarrow> json option" where
  "ex_parse chunks =
     (if concat chunks = concat ex_bad_key_chunks then Some ex_bad_key_body else None)"

definition ex_decode :: "string \<Rightarrow> string" where
  "ex_decode chunk = chunk"

section \<open>The reconciler: what each record of the batch contributes\<close>

lemma sync_chat_sync:
  "chatsToSync (sync_chat uid m c acc) =
     chatsToSync acc @ chatsToSync (sync_chat uid m c \<lparr>chatsToSync = [], chatsToDelete = [], console_error = []\<rparr>)"
  by (simp add: sync_chat_def split: option.splits)

lemma sync_chat_delete:
  "chatsToDelete (sync_chat uid m c acc) =
     chatsToDelete acc @ chatsToDelete (sync_chat uid m c \<lparr>chatsToSync = [], chatsToDelete = [], console_error = []\<rparr>)"
  by (simp add: sync_chat_def split: option.splits)

lemma sync_chat_console:
  "console_error (sync_chat uid m c acc) =
     console_error acc @ console_error (sync_chat uid m c \<lparr>chatsToSync = [], chatsToDelete = [], console_error = []\<rparr>)"
  by (simp add: sync_chat_def split: option.splits)

lemma fold_sync_chat_sync:
  "chatsToSync (fold (sync_chat uid m) cs acc) =
     chatsToSync acc @ concat (map (\<lambda>c. chatsToSync (sync_chat uid m c \<lparr>chatsToSync = [], chatsToDelete = [], console_error = []\<rparr>)) cs)"
proof (induction cs arbitrary: acc)
  case Nil
  show ?case by simp
next
  case (Cons c cs)
  have "chatsToSync (fold (sync_chat uid m) (c # cs) acc) =
        chatsToSync (sync_chat uid m c acc) @ concat (map (\<lambda>c. chatsToSync (sync_chat uid m c \<lparr>chatsToSync = [], chatsToDelete = [], console_error = []\<rparr>)) cs)"
    using Cons.IH [of "sync_chat uid m c acc"] by simp
  then show ?case
    by (subst (asm) sync_chat_sync) simp
qed

lemma fold_sync_chat_delete:
  "chatsToDelete (fold (sync_chat uid m) cs acc) =
     chatsToDelete acc @ concat (map (\<lambda>c. chatsToDelete (sync_chat uid m c \<lparr>chatsToSync = [], chatsToDelete = [], console_error = []\<rparr>)) cs)"
proof (induction cs arbitrary: acc)
  case Nil
  show ?case by simp
next
  case (Cons c cs)
  have "chatsToDelete (fold (sync_chat uid m) (c # cs) acc) =
        chatsToDelete (sync_chat uid m c acc) @ concat (map (\<lambda>c. chatsToDelete (sync_chat uid m c \<lparr>chatsToSync = [], chatsToDelete = [], console_error = []\<rparr>)) cs)"
    using Cons.IH [of "sync_chat uid m c acc"] by simp
  then show ?case
    by (subst (asm) sync_chat_delete) simp
qed

lemma fold_sync_chat_console:
  "console_error (fold (sync_chat uid m) cs acc) =
     console_error acc @ concat (map (\<lambda>c. console_error (sync_chat uid m c \<lparr>chatsToSync = [], chatsToDelete = [], console_error = []\<rparr>)) cs)"
proof (induction cs arbitrary: acc)
  case Nil
  show ?case by simp
next
  case (Cons c cs)
  have "console_error (fold (sync_chat uid m) (c # cs) acc) =
        console_error (sync_chat uid m c acc) @ concat (map (\<lambda>c. console_error (sync_chat uid m c \<lparr>chatsToSync = [], chatsToDelete = [], console_error = []\<rparr>)) cs)"
    using Cons.IH [of "sync_chat uid m c acc"] by simp
  then show ?case
    by (subst (asm) sync_chat_console) simp
qed

lemma reconcile_sync:
  "chatsToSync (reconcile uid dbChats cs) =
     concat (map (\<lambda>c. chatsToSync (sync_chat uid (dbChatsMap dbChats) c \<lparr>chatsToSync = [], chatsToDelete = [], console_error = []\<rparr>)) cs)"
  by (simp add: reconcile_def fold_sync_chat_sync)

lemma reconcile_delete:
  "chatsToDelete (reconcile uid dbChats cs) =
     concat (map (\<lambda>c. chatsToDelete (sync_chat uid (dbChatsMap dbChats) c \<lparr>chatsToSync = [], chatsToDelete = [], console_error = []\<rparr>)) cs)"
  by (simp add: reconcile_def fold_sync_chat_delete)

lemma reconcile_console:
  "console_error (reconcile uid dbChats cs) =
     concat (map (\<lambda>c. console_error (sync_chat uid (dbChatsMap dbChats) c \<lparr>chatsToSync = [], chatsToDelete = [], console_error = []\<rparr>)) cs)"
  by (simp add: reconcile_def fold_sync_chat_console)

lemma in_sync_chat:
  "x \<in> set (chatsToSync (sync_chat uid m c \<lparr>chatsToSync = [], chatsToDelete = [], console_error = []\<rparr>)) \<longleftrightarrow>
     x = c \<and> chatsToSync (sync_chat uid m c \<lparr>chatsToSync = [], chatsToDelete = [], console_error = []\<rparr>) = [c]"
  by (simp add: sync_chat_def split: option.splits)

lemma in_chatsToSync:
  "x \<in> set (chatsToSync (reconcile uid dbChats cs)) \<longleftrightarrow>
     x \<in> set cs \<and> chatsToSync (sync_chat uid (dbChatsMap dbChats) x \<lparr>chatsToSync = [], chatsToDelete = [], console_error = []\<rparr>) = [x]"
proof -
  have "x \<in> set (chatsToSync (reconcile uid dbChats cs)) \<longleftrightarrow>
      (\<exists>c \<in> set cs. x \<in> set (chatsToSync (sync_chat uid (dbChatsMap dbChats) c \<lparr>chatsToSync = [], chatsToDelete = [], console_error = []\<rparr>)))"
    by (simp add: reconcile_sync)
  also have "\<dots> \<longleftrightarrow> x \<in> set cs \<and> chatsToSync (sync_chat uid (dbChatsMap dbChats) x \<lparr>chatsToSync = [], chatsToDelete = [], console_error = []\<rparr>) = [x]"
    unfolding in_sync_chat by blast
  finally show ?thesis .
qed

text \<open>
  Claim C3, as amended. In a \<^verbatim>\<open>syncChats\<close> call for user \<open>uid\<close>, let \<open>c\<close> be a client
  chat that belongs to \<open>uid\<close> and whose \<open>chatId\<close> the server snapshot maps to \<open>d\<close>,
  neither record carrying a \<open>deletedAt\<close>. Then \<open>c\<close> is in the upsert set if and only if
  its \<open>updatedAt\<close> is strictly greater than the server's (on a tie it is dropped); at
  its place in the batch it contributes \<open>[c]\<close> or nothing to the upsert set, and nothing
  to the delete-cascade set.
\<close>

theorem C3_newer_client_wins:
  assumes "userId c = uid"
    and "dbChatsMap dbChats (chatId c) = Some d"
    and "deletedAt c = None" and "deletedAt d = None"
  shows "(c \<in> set (chatsToSync (reconcile uid dbChats (pre @ c # post))) \<longleftrightarrow> updatedAt d < updatedAt c) \<and>
         chatsToSync (reconcile uid dbChats (pre @ c # post)) =
           chatsToSync (reconcile uid dbChats pre) @ (if updatedAt d < updatedAt c then [c] else []) @
           chatsToSync (reconcile uid dbChats post) \<and>
         chatsToDelete (reconcile uid dbChats (pre @ c # post)) =
           chatsToDelete (reconcile uid dbChats pre) @ chatsToDelete (reconcile uid dbChats post)"
proof (intro conjI)
  show "c \<in> set (chatsToSync (reconcile uid dbChats (pre @ c # post))) \<longleftrightarrow> updatedAt d < updatedAt c"
    using assms by (simp add: in_chatsToSync sync_chat_def)
  show "chatsToSync (reconcile uid dbChats (pre @ c # post)) =
           chatsToSync (reconcile uid dbChats pre) @ (if updatedAt d < updatedAt c then [c] else []) @
           chatsToSync (reconcile uid dbChats post)"
    using assms by (simp add: reconcile_sync sync_chat_def)
  show "chatsToDelete (reconcile uid dbChats (pre @ c # post)) =
           chatsToDelete (reconcile uid dbChats pre) @ chatsToDelete (reconcile uid dbChats post)"
    using assms by (simp add: reconcile_delete sync_chat_def)
qed

text \<open>The amended claim C3 at a batch of a tombstoned chat followed by a newer one.\<close>

theorem C3_newer_client_wins_witness:
  "ex_newer_c1 \<in> set (chatsToSync (reconcile ''u1'' [ex_server_c1] ([ex_tomb_c2] @ ex_newer_c1 # []))) \<and>
   chatsToSync (reconcile ''u1'' [ex_server_c1] ([ex_tomb_c2] @ ex_newer_c1 # [])) = [ex_tomb_c2, ex_newer_c1] \<and>
   chatsToDelete (reconcile ''u1'' [ex_server_c1] ([ex_tomb_c2] @ ex_newer_c1 # [])) = [''c2'']"
proof -
  have own: "userId ex_newer_c1 = ''u1''"
    by (simp add: ex_newer_c1_def)
  have found: "dbChatsMap [ex_server_c1] (chatId ex_newer_c1) = Some ex_server_c1"
    by (simp add: dbChatsMap_def ex_newer_c1_def ex_server_c1_def)
  have live: "deletedAt ex_newer_c1 = None" "deletedAt ex_server_c1 = None"
    by (simp_all add: ex_newer_c1_def ex_server_c1_def)
  have newer: "updatedAt ex_server_c1 < updatedAt ex_newer_c1"
    by (simp add: ex_newer_c1_def ex_server_c1_def)
  have pre: "reconcile ''u1'' [ex_server_c1] [ex_tomb_c2] =
      \<lparr>chatsToSync = [ex_tomb_c2], chatsToDelete = [''c2''], console_error = []\<rparr>"
    by (simp add: reconcile_def sync_chat_def dbChatsMap_def ex_tomb_c2_def ex_server_c1_def)
  have post: "reconcile ''u1'' [ex_server_c1] [] =
      \<lparr>chatsToSync = [], chatsToDelete = [], console_error = []\<rparr>"
    by (simp add: reconcile_def)
  show ?thesis
    using C3_newer_client_wins [OF own found live, of "[ex_tomb_c2]" "[]"] newer
    by (simp add: pre post)
qed

text \<open>
  Claim C3 as stated fails for a record that claims another owner: its \<open>chatId\<close> is in
  the snapshot, neither record is tombstoned, the client's \<open>updatedAt\<close> is strictly
  greater, and the ownership guard still keeps it out of the upsert set.
\<close>

theorem C3_counterexample:
  "dbChatsMap [ex_server_c1] (chatId ex_foreign_c1) = Some ex_server_c1 \<and>
   deletedAt ex_foreign_c1 = None \<and> deletedAt ex_server_c1 = None \<and>
   updatedAt ex_server_c1 < updatedAt ex_foreign_c1 \<and>
   ex_foreign_c1 \<notin> set (chatsToSync (reconcile ''u1'' [ex_server_c1] [ex_foreign_c1]))"
  by (simp add: reconcile_def sync_chat_def dbChatsMap_def ex_foreign_c1_def ex_server_c1_def)


text \<open>
  Claim C8. In a \<^verbatim>\<open>syncChats\<close> call for user \<open>uid\<close>, a client chat \<open>c\<close> whose \<open>userId\<close>
  differs from \<open>uid\<close> is not in the upsert set; at its place in the batch it adds
  nothing to the upsert set and nothing to the delete-cascade set, it adds one line to
  the console instead of throwing, and the records before and after it are processed
  as they are without it. Every id in the delete-cascade set comes from a record of
  the batch that belongs to \<open>uid\<close>.
\<close>

theorem C8_foreign_chat_rejected:
  assumes "userId c \<noteq> uid"
  shows "c \<notin> set (chatsToSync (reconcile uid dbChats (pre @ c # post))) \<and>
         chatsToSync (reconcile uid dbChats (pre @ c # post)) =
           chatsToSync (reconcile uid dbChats pre) @ chatsToSync (reconcile uid dbChats post) \<and>
         chatsToDelete (reconcile uid dbChats (pre @ c # post)) =
           chatsToDelete (reconcile uid dbChats pre) @ chatsToDelete (reconcile uid dbChats post) \<and>
         console_error (reconcile uid dbChats (pre @ c # post)) =
           console_error (reconcile uid dbChats pre) @ [ownership_error c uid] @
           console_error (reconcile uid dbChats post) \<and>
         set (chatsToDelete (reconcile uid dbChats (pre @ c # post)))
           \<subseteq> chatId ` {x \<in> set (pre @ post). userId x = uid}"
proof (intro conjI)
  show "c \<notin> set (chatsToSync (reconcile uid dbChats (pre @ c # post)))"
    using assms by (simp add: in_chatsToSync sync_chat_def)
  show "chatsToSync (reconcile uid dbChats (pre @ c # post)) =
           chatsToSync (reconcile uid dbChats pre) @ chatsToSync (reconcile uid dbChats post)"
    using assms by (simp add: reconcile_sync sync_chat_def)
  show del: "chatsToDelete (reconcile uid dbChats (pre @ c # post)) =
           chatsToDelete (reconcile uid dbChats pre) @ chatsToDelete (reconcile uid dbChats post)"
    using assms by (simp add: reconcile_delete sync_chat_def)
  show "console_error (reconcile uid dbChats (pre @ c # post)) =
           console_error (reconcile uid dbChats pre) @ [ownership_error c uid] @
           console_error (reconcile uid dbChats post)"
    using assms by (simp add: reconcile_console sync_chat_def)
  have "set (chatsToDelete (reconcile uid dbChats xs)) \<subseteq> chatId ` {x \<in> set xs. userId x = uid}" for xs
    by (auto simp: reconcile_delete sync_chat_def split: option.splits if_splits)
  from this [of pre] this [of post]
  show "set (chatsToDelete (reconcile uid dbChats (pre @ c # post)))
           \<subseteq> chatId ` {x \<in> set (pre @ post). userId x = uid}"
    unfolding del by auto
qed

text \<open>Claim C8 at a batch with a foreign record between two records of the user.\<close>

theorem C8_foreign_chat_rejected_witness:
  "ex_foreign_c1 \<notin> set (chatsToSync (reconcile ''u1'' [ex_server_c1] ([ex_tomb_c2] @ ex_foreign_c1 # [ex_newer_c1]))) \<and>
   chatsToSync (reconcile ''u1'' [ex_server_c1] ([ex_tomb_c2] @ ex_foreign_c1 # [ex_newer_c1])) = [ex_tomb_c2, ex_newer_c1] \<and>
   chatsToDelete (reconcile ''u1'' [ex_server_c1] ([ex_tomb_c2] @ ex_foreign_c1 # [ex_newer_c1])) = [''c2''] \<and>
   console_error (reconcile ''u1'' [ex_server_c1] ([ex_tomb_c2] @ ex_foreign_c1 # [ex_newer_c1])) =
     [''Chat c1 has userId u2 which doesn't match the provided userId u1'']"
proof -
  have foreign: "userId ex_foreign_c1 \<noteq> ''u1''"
    by (simp add: ex_foreign_c1_def)
  have pre: "reconcile ''u1'' [ex_server_c1] [ex_tomb_c2] =
      \<lparr>chatsToSync = [ex_tomb_c2], chatsToDelete = [''c2''], console_error = []\<rparr>"
    by (simp add: reconcile_def sync_chat_def dbChatsMap_def ex_tomb_c2_def ex_server_c1_def)
  have post: "reconcile ''u1'' [ex_server_c1] [ex_newer_c1] =
      \<lparr>chatsToSync = [ex_newer_c1], chatsToDelete = [], console_error = []\<rparr>"
    by (simp add: reconcile_def sync_chat_def dbChatsMap_def ex_newer_c1_def ex_server_c1_def)
  have msg: "ownership_error ex_foreign_c1 ''u1'' =
      ''Chat c1 has userId u2 which doesn't match the provided userId u1''"
    by (simp add: ownership_error_def ex_foreign_c1_def)
  have ne: "ex_foreign_c1 \<noteq> ex_tomb_c2" "ex_foreign_c1 \<noteq> ex_newer_c1"
    by (simp_all add: ex_foreign_c1_def ex_tomb_c2_def ex_newer_c1_def)
  show ?thesis
    using C8_foreign_chat_rejected [OF foreign, of "[ex_server_c1]" "[ex_tomb_c2]" "[ex_newer_c1]"]
    by (simp add: pre post msg ne)
qed


lemma chatsToDelete_tombstoned:
  "chatsToDelete (reconcile uid dbChats cs) =
     map chatId (filter (\<lambda>c. truthy (deletedAt c)) (chatsToSync (reconcile uid dbChats cs)))"
  unfolding reconcile_sync reconcile_delete
  by (induction cs) (auto simp: sync_chat_def split: option.splits)

section \<open>The store after a sync\<close>

lemma filter_replace_same_id:
  "\<not> Q (chatId c) \<Longrightarrow>
   filter (\<lambda>r. Q (chatId r)) (map (\<lambda>r. if chatId r = chatId c then c else r) rows) =
   filter (\<lambda>r. Q (chatId r)) rows"
  by (induction rows) auto

lemma filter_upsert_chat:
  "\<not> Q (chatId c) \<Longrightarrow>
   filter (\<lambda>r. Q (chatId r)) (upsert_chat c rows) = filter (\<lambda>r. Q (chatId r)) rows"
  by (simp add: upsert_chat_def filter_replace_same_id)

lemma filter_fold_upsert_chat:
  "\<forall>c \<in> set cs. \<not> Q (chatId c) \<Longrightarrow>
   filter (\<lambda>r. Q (chatId r)) (fold upsert_chat cs rows) = filter (\<lambda>r. Q (chatId r)) rows"
  by (induction cs arbitrary: rows) (simp_all add: filter_upsert_chat)

lemma ids_upsert_chat:
  "map chatId (upsert_chat c rows) =
     map chatId rows @ (if chatId c \<in> chatId ` set rows then [] else [chatId c])"
proof -
  have "map chatId (map (\<lambda>r. if chatId r = chatId c then c else r) rows) = map chatId rows"
    by (induction rows) auto
  then show ?thesis by (simp add: upsert_chat_def)
qed

lemma ids_fold_upsert_chat:
  "\<exists>new. map chatId (fold upsert_chat cs rows) = map chatId rows @ new"
proof (induction cs arbitrary: rows)
  case Nil
  show ?case by simp
next
  case (Cons c cs)
  obtain new where "map chatId (fold upsert_chat cs (upsert_chat c rows)) =
      map chatId (upsert_chat c rows) @ new"
    using Cons.IH by blast
  then show ?case by (simp add: ids_upsert_chat)
qed

lemma PostgresClient_syncChats_result:
  assumes "PostgresClient_syncChats toSync toDelete d = (outcome, d')"
  shows "(outcome \<noteq> None \<and> d' = d) \<or>
         (outcome = None \<and>
          d' = d\<lparr>chats := map_option (fold upsert_chat
                     (map (\<lambda>c. c\<lparr>deletedAt := or_null (deletedAt c)\<rparr>) toSync)) (chats d),
                messages := map_option (filter (\<lambda>m. msgChatId m \<notin> set toDelete)) (messages d)\<rparr>)"
proof (cases "toSync = [] \<and> toDelete = []")
  case True
  then have "outcome = None" "d' = d"
    using assms by (simp_all add: PostgresClient_syncChats_def)
  moreover have "map_option (filter (\<lambda>m. True)) (messages d) = messages d"
    by (cases "messages d") simp_all
  ultimately show ?thesis using True by (simp add: option.map_id)
next
  case False
  show ?thesis
  proof (cases "toSync = []")
    case True
    then have del: "toDelete \<noteq> []" using False by simp
    show ?thesis
      using assms True del
      by (auto simp: PostgresClient_syncChats_def then_do_def stmt_def DELETE_MESSAGES_BY_CHAT_IDS_def
            ROLLBACK_def COMMIT_def option.map_id split: option.splits)
  next
    case sync: False
    show ?thesis
    proof (cases "toDelete = []")
      case True
      have "map_option (filter (\<lambda>m. True)) (messages d) = messages d"
        by (cases "messages d") simp_all
      then show ?thesis
        using assms True sync
        by (auto simp: PostgresClient_syncChats_def then_do_def stmt_def UPSERT_CHATS_QUERY_def
              ROLLBACK_def COMMIT_def split: option.splits if_splits)
    next
      case del: False
      show ?thesis
        using assms sync del
        by (auto simp: PostgresClient_syncChats_def then_do_def stmt_def UPSERT_CHATS_QUERY_def
              DELETE_MESSAGES_BY_CHAT_IDS_def ROLLBACK_def COMMIT_def
              split: option.splits if_splits)
    qed
  qed
qed


text \<open>
  Claim C9. In every \<^verbatim>\<open>syncChats\<close> call the delete-cascade set is the list of the ids
  of the tombstoned records of the upsert set, in the same order; so every id in the
  delete-cascade set is the id of a chat record in the upsert set of the same call.
  And when the client applies the two sets, the store either stays as it was or gets
  both the upsert of the whole upsert set and the deletion of the messages: the
  messages are never deleted without the upsert.
\<close>

theorem C9_delete_implies_upsert:
  "chatsToDelete (reconcile uid dbChats cs) =
     map chatId (filter (\<lambda>c. truthy (deletedAt c)) (chatsToSync (reconcile uid dbChats cs))) \<and>
   set (chatsToDelete (reconcile uid dbChats cs)) \<subseteq> chatId ` set (chatsToSync (reconcile uid dbChats cs)) \<and>
   (\<forall>d outcome d'.
      PostgresClient_syncChats (chatsToSync (reconcile uid dbChats cs))
        (chatsToDelete (reconcile uid dbChats cs)) d = (outcome, d') \<longrightarrow>
      d' = d \<or>
      outcome = None \<and>
      chats d' = map_option (fold upsert_chat
          (map (\<lambda>c. c\<lparr>deletedAt := or_null (deletedAt c)\<rparr>) (chatsToSync (reconcile uid dbChats cs))))
        (chats d) \<and>
      messages d' = map_option
          (filter (\<lambda>m. msgChatId m \<notin> set (chatsToDelete (reconcile uid dbChats cs)))) (messages d))"
proof -
  have eq: "chatsToDelete (reconcile uid dbChats cs) =
     map chatId (filter (\<lambda>c. truthy (deletedAt c)) (chatsToSync (reconcile uid dbChats cs)))"
    by (rule chatsToDelete_tombstoned)
  have "set (map chatId (filter (\<lambda>c. truthy (deletedAt c)) (chatsToSync (reconcile uid dbChats cs))))
      \<subseteq> chatId ` set (chatsToSync (reconcile uid dbChats cs))"
    by auto
  then have sub: "set (chatsToDelete (reconcile uid dbChats cs))
      \<subseteq> chatId ` set (chatsToSync (reconcile uid dbChats cs))"
    by (simp only: eq [symmetric])
  have both: "d' = d \<or>
      outcome = None \<and>
      chats d' = map_option (fold upsert_chat
          (map (\<lambda>c. c\<lparr>deletedAt := or_null (deletedAt c)\<rparr>) (chatsToSync (reconcile uid dbChats cs))))
        (chats d) \<and>
      messages d' = map_option
          (filter (\<lambda>m. msgChatId m \<notin> set (chatsToDelete (reconcile uid dbChats cs)))) (messages d)"
    if "PostgresClient_syncChats (chatsToSync (reconcile uid dbChats cs))
        (chatsToDelete (reconcile uid dbChats cs)) d = (outcome, d')" for d :: "'a db" and outcome d'
    using PostgresClient_syncChats_result [OF that] by auto
  show ?thesis
    using eq sub both by blast
qed

text \<open>Claim C9 at a batch of a tombstoned chat and a newer live one.\<close>

theorem C9_delete_implies_upsert_witness:
  "chatsToDelete (reconcile ''u1'' [ex_server_c1] [ex_tomb_c2, ex_newer_c1]) = [''c2''] \<and>
   chatsToSync (reconcile ''u1'' [ex_server_c1] [ex_tomb_c2, ex_newer_c1]) = [ex_tomb_c2, ex_newer_c1] \<and>
   PostgresClient_syncChats [ex_tomb_c2, ex_newer_c1] [''c2''] ex_store =
     (None, ex_store\<lparr>chats := Some [ex_newer_c1, ex_tomb_c2], messages := Some [ex_m1]\<rparr>)"
proof -
  have sync: "chatsToSync (reconcile ''u1'' [ex_server_c1] [ex_tomb_c2, ex_newer_c1]) = [ex_tomb_c2, ex_newer_c1]"
    by (simp add: reconcile_def sync_chat_def dbChatsMap_def ex_tomb_c2_def ex_newer_c1_def ex_server_c1_def)
  have tomb: "truthy (deletedAt ex_tomb_c2)" "\<not> truthy (deletedAt ex_newer_c1)"
    by (simp_all add: ex_tomb_c2_def ex_newer_c1_def)
  have ids: "chatId ex_tomb_c2 = ''c2''"
    by (simp add: ex_tomb_c2_def)
  have run: "PostgresClient_syncChats [ex_tomb_c2, ex_newer_c1] [''c2''] ex_store =
     (None, ex_store\<lparr>chats := Some [ex_newer_c1, ex_tomb_c2], messages := Some [ex_m1]\<rparr>)"
    by code_simp
  have "chatsToDelete (reconcile ''u1'' [ex_server_c1] [ex_tomb_c2, ex_newer_c1]) =
     map chatId (filter (\<lambda>c. truthy (deletedAt c))
       (chatsToSync (reconcile ''u1'' [ex_server_c1] [ex_tomb_c2, ex_newer_c1])))"
    using C9_delete_implies_upsert [of "''u1''" "[ex_server_c1]" "[ex_tomb_c2, ex_newer_c1]"] by (rule conjunct1)
  then show ?thesis
    using run by (simp add: sync tomb ids)
qed

text \<open>
  Claim C10. \<^verbatim>\<open>PostgresClient.syncChats\<close> leaves the version table and every other
  schema object alone and, when it throws, the whole store. It removes no row of table
  \<^verbatim>\<open>chats\<close>: the ids that were in the table are all still there, in place, with new
  rows only appended, and the rows whose id is not in the upsert set are exactly as
  they were. The only rows it deletes are the messages whose \<^verbatim>\<open>chat_id\<close> is in the
  delete-cascade set.
\<close>

theorem C10_syncChats_frame:
  assumes "PostgresClient_syncChats toSync toDelete d = (outcome, d')"
  shows "schema_versions d' = schema_versions d \<and> other d' = other d \<and>
         (outcome \<noteq> None \<longrightarrow> d' = d) \<and>
         (chats d = None \<longrightarrow> chats d' = None) \<and>
         (\<forall>rows. chats d = Some rows \<longrightarrow>
            (\<exists>rows' new. chats d' = Some rows' \<and> map chatId rows' = map chatId rows @ new \<and>
               filter (\<lambda>r. chatId r \<notin> chatId ` set toSync) rows' =
               filter (\<lambda>r. chatId r \<notin> chatId ` set toSync) rows)) \<and>
         (outcome = None \<longrightarrow>
            messages d' = map_option (filter (\<lambda>m. msgChatId m \<notin> set toDelete)) (messages d))"
proof -
  let ?norm = "map (\<lambda>c. c\<lparr>deletedAt := or_null (deletedAt c)\<rparr>) toSync"
  from PostgresClient_syncChats_result [OF assms]
  consider (failed) "outcome \<noteq> None" "d' = d"
    | (succeeded) "outcome = None"
        "d' = d\<lparr>chats := map_option (fold upsert_chat ?norm) (chats d),
               messages := map_option (filter (\<lambda>m. msgChatId m \<notin> set toDelete)) (messages d)\<rparr>"
    by blast
  then show ?thesis
  proof cases
    case failed
    then show ?thesis by auto
  next
    case succeeded
    have keep: "filter (\<lambda>r. chatId r \<notin> chatId ` set toSync) (fold upsert_chat ?norm rows) =
        filter (\<lambda>r. chatId r \<notin> chatId ` set toSync) rows" for rows
      by (rule filter_fold_upsert_chat) auto
    have ids: "\<exists>new. map chatId (fold upsert_chat ?norm rows) = map chatId rows @ new" for rows
      by (rule ids_fold_upsert_chat)
    show ?thesis
      using succeeded keep ids by simp
  qed
qed

text \<open>Claim C10 at a store of two chats with one message each, one chat being tombstoned.\<close>

theorem C10_syncChats_frame_witness:
  "PostgresClient_syncChats [ex_tomb_c2] [''c2''] ex_store =
     (None, ex_store\<lparr>chats := Some [ex_server_c1, ex_tomb_c2], messages := Some [ex_m1]\<rparr>) \<and>
   map chatId [ex_server_c1, ex_tomb_c2] = map chatId [ex_server_c1, ex_live_c2] \<and>
   messages (ex_store\<lparr>chats := Some [ex_server_c1, ex_tomb_c2], messages := Some [ex_m1]\<rparr>) =
     map_option (filter (\<lambda>m. msgChatId m \<notin> set [''c2''])) (messages ex_store)"
proof -
  have run: "PostgresClient_syncChats [ex_tomb_c2] [''c2''] ex_store =
     (None, ex_store\<lparr>chats := Some [ex_server_c1, ex_tomb_c2], messages := Some [ex_m1]\<rparr>)"
    by (simp add: PostgresClient_syncChats_def then_do_def stmt_def UPSERT_CHATS_QUERY_def
          DELETE_MESSAGES_BY_CHAT_IDS_def COMMIT_def upsert_chat_def ex_store_def ex_tomb_c2_def
          ex_server_c1_def ex_live_c2_def ex_m1_def ex_m2_def)
  have ids: "map chatId [ex_server_c1, ex_tomb_c2] = map chatId [ex_server_c1, ex_live_c2]"
    by (simp add: ex_tomb_c2_def ex_live_c2_def)
  show ?thesis
    using C10_syncChats_frame [OF run] run ids by simp
qed

lemma tombstoned_in_snapshot_not_synced:
  assumes "m (chatId c) = Some s" and "truthy (deletedAt s)"
  shows "chatsToSync (sync_chat uid m c \<lparr>chatsToSync = [], chatsToDelete = [], console_error = []\<rparr>) = []"
  using assms by (simp add: sync_chat_def)

text \<open>
  Claim C4, as amended. In a \<^verbatim>\<open>syncChats\<close> call, let the snapshot the call fetched map
  the id \<open>k\<close> to a record whose \<open>deletedAt\<close> is set (not null and not zero). Then no
  record with that id is in the upsert set and the id is not in the delete-cascade set,
  whatever the client records say; and after the call the stored row of that chat and
  its stored messages are what they were before, so the chat is still tombstoned.
\<close>

theorem C4_snapshot_tombstone_is_final:
  assumes "PostgresClient_getChatsByUserId uid updatedAfter 20 0 d = Inr dbChats"
    and "dbChatsMap dbChats k = Some s" and "truthy (deletedAt s)"
    and "syncChats (Some client) uid cs updatedAfter d = ((outcome, d'), diagnostics)"
  shows "(\<forall>c \<in> set (chatsToSync (reconcile uid dbChats cs)). chatId c \<noteq> k) \<and>
         k \<notin> set (chatsToDelete (reconcile uid dbChats cs)) \<and>
         map_option (filter (\<lambda>r. chatId r = k)) (chats d') =
           map_option (filter (\<lambda>r. chatId r = k)) (chats d) \<and>
         map_option (filter (\<lambda>m. msgChatId m = k)) (messages d') =
           map_option (filter (\<lambda>m. msgChatId m = k)) (messages d)"
proof -
  let ?r = "reconcile uid dbChats cs"
  let ?norm = "map (\<lambda>c. c\<lparr>deletedAt := or_null (deletedAt c)\<rparr>) (chatsToSync ?r)"
  have sync: "\<forall>c \<in> set (chatsToSync ?r). chatId c \<noteq> k"
  proof
    fix c assume "c \<in> set (chatsToSync ?r)"
    then have one: "chatsToSync (sync_chat uid (dbChatsMap dbChats) c
        \<lparr>chatsToSync = [], chatsToDelete = [], console_error = []\<rparr>) = [c]"
      by (simp add: in_chatsToSync)
    show "chatId c \<noteq> k"
    proof
      assume "chatId c = k"
      then have "dbChatsMap dbChats (chatId c) = Some s" using assms(2) by simp
      from tombstoned_in_snapshot_not_synced [of "dbChatsMap dbChats" c s uid, OF this assms(3)] one
      show False by simp
    qed
  qed
  have del: "k \<notin> set (chatsToDelete ?r)"
    using sync by (subst chatsToDelete_tombstoned) auto
  have run: "(outcome, d') = (None, d) \<or>
      PostgresClient_syncChats (chatsToSync ?r) (chatsToDelete ?r) d = (outcome, d')"
    using assms(1,4) by (simp add: syncChats_def Let_def split: if_splits)
  have rows: "map_option (filter (\<lambda>r. chatId r = k)) (chats d') =
           map_option (filter (\<lambda>r. chatId r = k)) (chats d)"
    and msgs: "map_option (filter (\<lambda>m. msgChatId m = k)) (messages d') =
           map_option (filter (\<lambda>m. msgChatId m = k)) (messages d)"
  proof -
    from run consider (same) "d' = d"
      | (succeeded) "d' = d\<lparr>chats := map_option (fold upsert_chat ?norm) (chats d),
               messages := map_option (filter (\<lambda>m. msgChatId m \<notin> set (chatsToDelete ?r))) (messages d)\<rparr>"
      using PostgresClient_syncChats_result [of "chatsToSync ?r" "chatsToDelete ?r" d outcome d']
      by blast
    then have "map_option (filter (\<lambda>r. chatId r = k)) (chats d') =
           map_option (filter (\<lambda>r. chatId r = k)) (chats d) \<and>
         map_option (filter (\<lambda>m. msgChatId m = k)) (messages d') =
           map_option (filter (\<lambda>m. msgChatId m = k)) (messages d)"
    proof cases
      case same
      then show ?thesis by simp
    next
      case succeeded
      have "\<forall>c \<in> set ?norm. \<not> (chatId c = k)"
        using sync by simp
      then have keep: "filter (\<lambda>r. chatId r = k) (fold upsert_chat ?norm rows) =
          filter (\<lambda>r. chatId r = k) rows" for rows
        by (rule filter_fold_upsert_chat)
      have kept: "filter (\<lambda>m. msgChatId m = k) (filter (\<lambda>m. msgChatId m \<notin> set (chatsToDelete ?r)) ms) =
          filter (\<lambda>m. msgChatId m = k) ms" for ms
        using del by (induction ms) auto
      have keep': "map_option (filter (\<lambda>r. chatId r = k)) (map_option (fold upsert_chat ?norm) x) =
          map_option (filter (\<lambda>r. chatId r = k)) x" for x
        by (cases x) (simp_all add: keep)
      have kept': "map_option (filter (\<lambda>m. msgChatId m = k))
            (map_option (filter (\<lambda>m. msgChatId m \<notin> set (chatsToDelete ?r))) x) =
          map_option (filter (\<lambda>m. msgChatId m = k)) x" for x
        by (cases x) (simp_all only: option.map kept)
      have c: "chats d' = map_option (fold upsert_chat ?norm) (chats d)"
        and m: "messages d' =
          map_option (filter (\<lambda>m. msgChatId m \<notin> set (chatsToDelete ?r))) (messages d)"
        using succeeded by simp_all
      show ?thesis
        by (simp only: c m keep' kept')
    qed
    then show "map_option (filter (\<lambda>r. chatId r = k)) (chats d') =
           map_option (filter (\<lambda>r. chatId r = k)) (chats d)"
      and "map_option (filter (\<lambda>m. msgChatId m = k)) (messages d') =
           map_option (filter (\<lambda>m. msgChatId m = k)) (messages d)"
      by simp_all
  qed
  show ?thesis using sync del rows msgs by simp
qed

lemma ex_tomb_snapshot:
  "PostgresClient_getChatsByUserId ''u1'' None 20 0 ex_tomb_store = Inr [ex_deleted_c3]"
  by (simp add: PostgresClient_getChatsByUserId_def GET_CHATS_BY_USER_ID_QUERY_def
        ex_tomb_store_def ex_deleted_c3_def)

lemma ex_tomb_run:
  "syncChats (Some (PostgresClient_new :: unit migrations)) ''u1'' [ex_revive_c3] None ex_tomb_store =
     ((None, ex_tomb_store), [])"
  by (simp add: syncChats_def ex_tomb_snapshot reconcile_def sync_chat_def dbChatsMap_def
        PostgresClient_syncChats_def ex_deleted_c3_def ex_revive_c3_def)

text \<open>The amended claim C4 at a store whose only chat is tombstoned, synced without a watermark.\<close>

theorem C4_snapshot_tombstone_is_final_witness:
  "syncChats (Some (PostgresClient_new :: unit migrations)) ''u1'' [ex_revive_c3] None ex_tomb_store =
     ((None, ex_tomb_store), []) \<and>
   chatsToSync (reconcile ''u1'' [ex_deleted_c3] [ex_revive_c3]) = [] \<and>
   ''c3'' \<notin> set (chatsToDelete (reconcile ''u1'' [ex_deleted_c3] [ex_revive_c3]))"
proof -
  have found: "dbChatsMap [ex_deleted_c3] ''c3'' = Some ex_deleted_c3"
    by (simp add: dbChatsMap_def ex_deleted_c3_def)
  have tomb: "truthy (deletedAt ex_deleted_c3)"
    by (simp add: ex_deleted_c3_def)
  have empty: "chatsToSync (reconcile ''u1'' [ex_deleted_c3] [ex_revive_c3]) = []"
    by (simp add: reconcile_def sync_chat_def dbChatsMap_def ex_deleted_c3_def ex_revive_c3_def)
  show ?thesis
    using C4_snapshot_tombstone_is_final [OF ex_tomb_snapshot found tomb ex_tomb_run] ex_tomb_run empty
    by simp
qed

text \<open>
  Claim C4 as stated fails twice. With the watermark 60 the snapshot leaves out a chat
  tombstoned at 50, the client's live copy is upserted, and the stored tombstone is
  gone after the call. And a server record whose \<open>deletedAt\<close> is 0 is not null, yet the
  truthiness test takes it for live and the client's newer copy enters the upsert set.
\<close>

theorem C4_counterexample:
  "chats ex_tomb_store = Some [ex_deleted_c3] \<and> deletedAt ex_deleted_c3 = Some 50 \<and>
   syncChats (Some (PostgresClient_new :: unit migrations)) ''u1'' [ex_revive_c3] (Some 60) ex_tomb_store =
     ((None, ex_tomb_store\<lparr>chats := Some [ex_revive_c3]\<rparr>), []) \<and>
   deletedAt ex_revive_c3 = None \<and>
   dbChatsMap [ex_zero_c4] (chatId ex_client_c4) = Some ex_zero_c4 \<and>
   deletedAt ex_zero_c4 = Some 0 \<and>
   chatsToSync (reconcile ''u1'' [ex_zero_c4] [ex_client_c4]) = [ex_client_c4]"
  by (simp add: syncChats_def PostgresClient_getChatsByUserId_def GET_CHATS_BY_USER_ID_QUERY_def
        reconcile_def sync_chat_def dbChatsMap_def PostgresClient_syncChats_def then_do_def stmt_def
        UPSERT_CHATS_QUERY_def COMMIT_def upsert_chat_def
        ex_tomb_store_def ex_deleted_c3_def ex_revive_c3_def ex_zero_c4_def ex_client_c4_def)

section \<open>The migration runner\<close>

lemma map_upt_Suc_front:
  "map f [0..<Suc k] = f 0 # map (\<lambda>i. f (Suc i)) [0..<k]"
  by (induction k) simp_all

lemma announced_shift:
  "v # map (\<lambda>i. v + 1 + int i) [0..<k] = map (\<lambda>i. v + int i) [0..<Suc k]"
proof -
  have "map (\<lambda>i. v + int i) [0..<Suc k] = (v + int 0) # map (\<lambda>i. v + int (Suc i)) [0..<k]"
    by (rule map_upt_Suc_front)
  also have "\<dots> = v # map (\<lambda>i. v + 1 + int i) [0..<k]"
    by (simp add: ac_simps)
  finally show ?thesis by (rule sym)
qed

lemma after_upgrades_version:
  "after_upgrades ms k v t = Some (v', t') \<Longrightarrow> v' = v + int k"
proof (induction k arbitrary: v t)
  case 0
  then show ?case by simp
next
  case (Suc k)
  from Suc.prems obtain t1 where "after_upgrades ms k (v + 1) t1 = Some (v', t')"
    by (auto split: option.splits sum.splits)
  from Suc.IH [OF this] show ?case by simp
qed

lemma migrate_after_upgrades:
  "after_upgrades ms k v t = Some (v', t') \<Longrightarrow>
   migrate ms v t announced = migrate ms v' t' (announced @ map (\<lambda>i. v + int i) [0..<k])"
proof (induction k arbitrary: v t announced)
  case 0
  then show ?case by simp
next
  case (Suc k)
  from Suc.prems obtain migration t1 where reg: "map_of ms v = Some migration"
    and up: "upgrade migration v t = Inr t1"
    and rest: "after_upgrades ms k (v + 1) t1 = Some (v', t')"
    by (auto split: option.splits sum.splits)
  have "migrate ms v t announced = migrate ms (v + 1) t1 (announced @ [v])"
    by (subst migrate.simps) (simp add: reg up)
  also have "\<dots> = migrate ms v' t' ((announced @ [v]) @ map (\<lambda>i. v + 1 + int i) [0..<k])"
    by (rule Suc.IH [OF rest])
  also have "(announced @ [v]) @ map (\<lambda>i. v + 1 + int i) [0..<k] =
      announced @ map (\<lambda>i. v + int i) [0..<Suc k]"
    using announced_shift [of v k] by simp
  finally show ?case .
qed

lemma initializeDatabase_failure_keeps_store:
  "PostgresClient_initializeDatabase ms d = ((Some e, d'), announced) \<Longrightarrow> d' = d"
  by (auto simp: PostgresClient_initializeDatabase_def ROLLBACK_def
        split: sum.splits prod.splits)

text \<open>
  Claim C1. Let \<^verbatim>\<open>initializeDatabase\<close> run on store \<open>d\<close>: it creates the version table
  if needed, reads version \<open>v0\<close>, and suppose \<open>k\<close> registered procedures then run and
  succeed, each followed by recording the next version, which brings the run to
  version \<open>v\<close> and working copy \<open>t\<close>. If the procedure registered for \<open>v\<close> now throws
  \<open>e\<close>, whatever it had done by then, the call throws that same \<open>e\<close> and the store is
  exactly \<open>d\<close>: the \<open>k\<close> upgrades that had succeeded are undone as well.
\<close>

theorem C1_failed_upgrade_rolls_back:
  assumes "CREATE_VERSION_TABLE_QUERY d = Inr t0"
    and "GET_SCHEMA_VERSION_QUERY t0 = Inr v0"
    and "after_upgrades ms k v0 t0 = Some (v, t)"
    and "map_of ms v = Some migration"
    and "migration t = Inl (e, partial)"
  shows "PostgresClient_initializeDatabase ms d =
           ((Some e, d), map (\<lambda>i. v0 + int i) [0..<Suc k])"
proof -
  have "upgrade migration v t = Inl (e, partial)"
    using assms(5) by (simp add: upgrade_def then_do_def)
  then have last: "migrate ms v t announced = (Inl (e, partial), announced @ [v])" for announced
    using assms(4) by (subst migrate.simps) simp
  have "v = v0 + int k"
    using assms(3) by (rule after_upgrades_version)
  then have "migrate ms v0 t0 [] = (Inl (e, partial), map (\<lambda>i. v0 + int i) [0..<Suc k])"
    using migrate_after_upgrades [OF assms(3), of "[]"] last by simp
  then show ?thesis
    using assms(1,2) by (simp add: PostgresClient_initializeDatabase_def stmt_def ROLLBACK_def)
qed

lemma ex_fresh_created:
  "CREATE_VERSION_TABLE_QUERY ex_fresh = Inr (ex_fresh\<lparr>schema_versions := Some []\<rparr>)"
  by (simp add: CREATE_VERSION_TABLE_QUERY_def ex_fresh_def)

lemma ex_fresh_version:
  "GET_SCHEMA_VERSION_QUERY (ex_fresh\<lparr>schema_versions := Some []\<rparr>) = Inr 0"
  by (simp add: GET_SCHEMA_VERSION_QUERY_def)

lemma ex_baseline_applied:
  "after_upgrades ex_bad_migrations 1 0 (ex_fresh\<lparr>schema_versions := Some []\<rparr>) =
     Some (1, ex_fresh\<lparr>schema_versions := Some [1], chats := Some [], messages := Some []\<rparr>)"
  by code_simp

text \<open>
  Claim C1 on a fresh store: the default procedure for version 0 succeeds, the one
  registered for version 1 throws after changing the schema.
\<close>

theorem C1_failed_upgrade_rolls_back_witness:
  "PostgresClient_initializeDatabase ex_bad_migrations ex_fresh =
     ((Some (Error ''boom''), ex_fresh), [0, 1])"
proof -
  have reg: "map_of ex_bad_migrations 1 = Some ex_failing"
    by (simp add: ex_bad_migrations_def registerMigration_def PostgresClient_new_def)
  have throws: "ex_failing (ex_fresh\<lparr>schema_versions := Some [1], chats := Some [], messages := Some []\<rparr>) =
      Inl (Error ''boom'',
        ex_fresh\<lparr>schema_versions := Some [1], chats := Some [], messages := Some [], other := 99\<rparr>)"
    by (simp add: ex_failing_def)
  have "map (\<lambda>i. 0 + int i) [0..<Suc 1] = [0, 1]"
    by (simp add: upt_rec)
  then show ?thesis
    using C1_failed_upgrade_rolls_back [OF ex_fresh_created ex_fresh_version ex_baseline_applied reg throws]
    by simp
qed















section \<open>Reading the snapshot and inserting messages\<close>

lemma getChatsByUserId_at_most_limit:
  "PostgresClient_getChatsByUserId uid updatedAfter limit page d = Inr dbChats \<Longrightarrow>
   length dbChats \<le> limit"
  by (auto simp: PostgresClient_getChatsByUserId_def GET_CHATS_BY_USER_ID_QUERY_def
        split: option.splits)

text \<open>
  Claim C5 fails on the code. User \<^verbatim>\<open>u1\<close> has 21 chats, the oldest one tombstoned. The
  snapshot \<^verbatim>\<open>syncChats\<close> reads is the first page of 20, without the oldest chat; a
  stale client copy of that chat is then taken for new and upserted over the
  tombstone.
\<close>

theorem C5_snapshot_is_first_page:
  "chats ex_store21 = Some (map ex_chat [1..<22]) \<and>
   filter (\<lambda>c. userId c = ''u1'') (map ex_chat [1..<22]) = map ex_chat [1..<22] \<and>
   PostgresClient_getChatsByUserId ''u1'' None 20 0 ex_store21 = Inr (rev (map ex_chat [2..<22])) \<and>
   ex_chat 1 \<notin> set (rev (map ex_chat [2..<22])) \<and>
   deletedAt (ex_chat 1) = Some 1 \<and>
   fst (syncChats (Some (PostgresClient_new :: unit migrations)) ''u1'' [ex_stale_chat] None ex_store21) =
     (None, ex_store21\<lparr>chats := Some (ex_stale_chat # map ex_chat [2..<22])\<rparr>)"
  by code_simp

lemma ADD_MESSAGE_QUERY_existing:
  "messages d = Some rows \<Longrightarrow> messageId m \<in> messageId ` set rows \<Longrightarrow>
   ADD_MESSAGE_QUERY m d = Inl UniqueViolation"
  by (simp add: ADD_MESSAGE_QUERY_def)

lemma fold_insert_do_nothing_existing:
  "\<forall>m \<in> set ms. messageId m \<in> messageId ` set rows \<Longrightarrow> fold insert_do_nothing ms rows = rows"
  by (induction ms) (simp_all add: insert_do_nothing_def)

lemma ADD_MESSAGES_QUERY_existing:
  "messages d = Some rows \<Longrightarrow> \<forall>m \<in> set ms. messageId m \<in> messageId ` set rows \<Longrightarrow>
   ADD_MESSAGES_QUERY ms d = Inr d"
  by (simp add: ADD_MESSAGES_QUERY_def fold_insert_do_nothing_existing)

text \<open>
  Claim C6 fails on the code for the single insert. With message \<^verbatim>\<open>m1\<close> stored,
  \<^verbatim>\<open>addMessage\<close> of the same id throws the engine's unique violation (the store is
  unchanged), while \<^verbatim>\<open>addMessages\<close> of the same message is a silent no-op.
\<close>

theorem C6_addMessage_duplicate_throws:
  "messages ex_store = Some [ex_m1, ex_m2] \<and> messageId ex_m1 = ''m1'' \<and>
   addMessage (Some (PostgresClient_new :: unit migrations))
     ''m1'' ''c1'' ''hello'' ''user'' 51 None None ex_store = (Some UniqueViolation, ex_store) \<and>
   addMessages (Some (PostgresClient_new :: unit migrations)) [ex_m1] ex_store = (None, ex_store)"
  by code_simp

section \<open>The LLM facade\<close>

lemma read_response_not_ok:
  "\<not> ok response \<Longrightarrow> \<exists>e. read_response parse toStr response = Inl e"
  by (auto simp: read_response_def split: sum.splits)

lemma read_response_error_message:
  assumes "\<not> ok response"
    and "response_json parse response = Inr (JObj members)"
    and "map_of (rev members) ''error'' = Some (JObj err)"
    and "map_of (rev err) ''message'' = Some (JStr msg)"
  shows "read_response parse toStr response = Inl (Error (''HTTP error! status: '' @ msg))"
  using assms by (simp add: read_response_def)

lemma read_response_bad_body:
  "\<not> ok response \<Longrightarrow> response_json parse response = Inl e \<Longrightarrow>
   read_response parse toStr response = Inl e"
  by (simp add: read_response_def)

text \<open>
  Claim C7 fails on the code for \<^verbatim>\<open>streamCompletion\<close>. Against a provider that answers
  401 with an error body whose \<^verbatim>\<open>error.message\<close> is \<^verbatim>\<open>bad key\<close>, the three calls that test
  \<^verbatim>\<open>response.ok\<close> throw an error whose message carries \<^verbatim>\<open>bad key\<close>, while
  \<^verbatim>\<open>streamCompletion\<close> throws nothing and yields the chunks of the error body as text.
\<close>

theorem C7_streamCompletion_ignores_status:
  "ok \<lparr>status = 401, body = Some ex_bad_key_chunks\<rparr> = False \<and>
   getModels ex_unauthorized ex_parse toStr ''http://llm'' ''key'' =
     Inl (Error ''HTTP error! status: bad key'') \<and>
   getCompletion ex_unauthorized ex_parse toStr ''http://llm'' ''key'' () =
     Inl (Error ''HTTP error! status: bad key'') \<and>
   generateImage ex_unauthorized ex_parse toStr ''http://llm'' ''key'' () =
     Inl (Error ''HTTP error! status: bad key'') \<and>
   streamCompletion ex_unauthorized ex_decode ''http://llm'' ''key'' () =
     Inr ex_bad_key_chunks"
  by (simp add: ok_def getModels_def getCompletion_def generateImage_def streamCompletion_def
        read_response_def response_json_def ex_unauthorized_def ex_parse_def ex_decode_def
        ex_bad_key_body_def ex_bad_key_chunks_def)

end
